theory Spec2Isabelle
  imports Complex_Main "HOL-Library.Sublist"
begin

section \<open>Data model (src/types.ts)\<close>

text \<open>
  JavaScript numbers are modelled as exact rationals (\<open>rat\<close>); pixel dimensions
  of a video element (\<open>videoWidth\<close>, \<open>videoHeight\<close>: unsigned integers of
  the DOM) and the entries of the target table are naturals. Rounding of IEEE doubles is
  outside this model. The field \<open>id\<close> of \<open>GeneratedClip\<close> is \<open>clip_id\<close> here.
\<close>

datatype AspectRatio = PORTRAIT | LANDSCAPE | SQUARE | FOUR_FIVE | FIVE_FOUR

record GeneratedClip =
  clip_id :: string
  title :: string
  description :: string
  startTime :: rat
  endTime :: rat
  viralityScore :: rat
  tags :: "string list"

record TargetGeometry =
  width :: nat
  height :: nat

record CropRect =
  sx :: rat
  sy :: rat
  sWidth :: rat
  sHeight :: rat

section \<open>Geometry (PreviewSegment: getTargetDimensions, crop of renderFrame)\<close>

text \<open>
  \<open>getTargetDimensions\<close>: the switch over the enum. Its \<open>default\<close> branch
  (1080 x 1920) is unreachable for a value of the enum type and has no equation here.
\<close>

fun getTargetDimensions :: "AspectRatio \<Rightarrow> TargetGeometry" where
  "getTargetDimensions PORTRAIT = \<lparr>width = 1080, height = 1920\<rparr>"
| "getTargetDimensions LANDSCAPE = \<lparr>width = 1920, height = 1080\<rparr>"
| "getTargetDimensions SQUARE = \<lparr>width = 1080, height = 1080\<rparr>"
| "getTargetDimensions FOUR_FIVE = \<lparr>width = 1080, height = 1350\<rparr>"
| "getTargetDimensions FIVE_FOUR = \<lparr>width = 1350, height = 1080\<rparr>"

text \<open>
  Division. In JavaScript \<open>a / 0\<close> does not raise: it is \<open>NaN\<close> or an
  infinity. Neither is a rational, so the model makes the case explicit: \<open>None\<close>
  says that a division by zero took place.
\<close>

definition divide_checked :: "rat \<Rightarrow> rat \<Rightarrow> rat option" where
  "divide_checked a b = (if b = 0 then None else Some (a / b))"

text \<open>
  The crop computation of \<open>renderFrame\<close> (the body of \<open>if (vw && vh)\<close>,
  up to the arguments of \<open>drawImage\<close>), for source dimensions \<open>vw\<close>,
  \<open>vh\<close> and the target \<open>targetW\<close> x \<open>targetH\<close>.
\<close>

definition renderFrame_crop :: "nat \<Rightarrow> nat \<Rightarrow> TargetGeometry \<Rightarrow> CropRect option" where
  "renderFrame_crop vw vh t =
     (case divide_checked (of_nat vw) (of_nat vh) of
        None \<Rightarrow> None
      | Some videoRatio \<Rightarrow>
         (case divide_checked (of_nat (width t)) (of_nat (height t)) of
            None \<Rightarrow> None
          | Some targetRatio \<Rightarrow>
              if videoRatio > targetRatio
              then Some \<lparr>sx = (of_nat vw - of_nat vh * targetRatio) / 2, sy = 0,
                         sWidth = of_nat vh * targetRatio, sHeight = of_nat vh\<rparr>
              else (case divide_checked (of_nat vw) targetRatio of
                      None \<Rightarrow> None
                    | Some h \<Rightarrow>
                        Some \<lparr>sx = 0, sy = (of_nat vh - h) / 2,
                              sWidth = of_nat vw, sHeight = h\<rparr>)))"

text \<open>
  What one tick does with the canvas: nothing when a source dimension is zero (the guard
  \<open>if (vw && vh)\<close>), otherwise one \<open>drawImage\<close> with the crop rectangle.
  \<open>DivisionByZero\<close> records a crop whose arithmetic divided by zero.
\<close>

datatype draw_result = Skipped | Drawn CropRect | DivisionByZero

definition renderFrame_draw :: "nat \<Rightarrow> nat \<Rightarrow> TargetGeometry \<Rightarrow> draw_result" where
  "renderFrame_draw vw vh t =
     (if vw \<noteq> 0 \<and> vh \<noteq> 0
      then (case renderFrame_crop vw vh t of None \<Rightarrow> DivisionByZero | Some c \<Rightarrow> Drawn c)
      else Skipped)"

section \<open>Clip suggestions (services/geminiService: analyzeVideoForClips, fallbackClips)\<close>

datatype Genre = PODCAST | WEBINAR | COMEDY | VLOG | REVIEW | GAMING | LIVE | QNA
  | MOTIVATIONAL | OTHERS

datatype ClipLength = AUTO | SHORT | MEDIUM | LONG

text \<open>Decimal rendering of a natural, as a template literal prints an integer.\<close>

fun string_of_nat :: "nat \<Rightarrow> string" where
  "string_of_nat n =
     (if n < 10 then [char_of (48 + n)]
      else string_of_nat (n div 10) @ [char_of (48 + n mod 10)])"

declare string_of_nat.simps [simp del]

text \<open>
  \<open>fallbackClips\<close>: four clips, \<open>i = 0..3\<close>. \<open>iteration\<close> is the
  positive counter the callers pass (1, then \<open>iteration + 1\<close>), a natural here, so
  \<open>5 + iteration\<close> is never zero.
\<close>

definition fallbackClip :: "string \<Rightarrow> rat \<Rightarrow> nat \<Rightarrow> nat \<Rightarrow> GeneratedClip" where
  "fallbackClip fileName duration iteration i =
     (let segment = of_int \<lfloor>duration / of_nat (5 + iteration)\<rfloor> in
      \<lparr>clip_id = ''fallback-'' @ string_of_nat iteration @ ''-'' @ string_of_nat i,
       title = ''Part '' @ string_of_nat (i + 1) @ '' - '' @ fileName @ '' (Gen ''
               @ string_of_nat iteration @ '')'',
       description = ''Auto-detected highlight based on audio levels and motion.'',
       startTime = of_nat i * segment + 10 * of_nat iteration,
       endTime = of_nat i * segment + 40 * of_nat iteration,
       viralityScore = 85,
       tags = [''auto'', ''highlight'']\<rparr>)"

definition fallbackClips :: "string \<Rightarrow> rat \<Rightarrow> nat \<Rightarrow> GeneratedClip list" where
  "fallbackClips fileName duration iteration =
     map (fallbackClip fileName duration iteration) [0, 1, 2, 3]"

text \<open>
  What the remote call and \<open>JSON.parse\<close> hand to the code:
  \<^item> \<open>CallFails\<close>: \<open>generateContent\<close> rejects;
  \<^item> \<open>NoText\<close>: \<open>response.text\<close> is empty or undefined (\<open>!text\<close>);
  \<^item> \<open>Unparseable\<close>: \<open>JSON.parse\<close> throws, or its value has no \<open>map\<close>;
  \<^item> \<open>Parsed data\<close>: the parsed array; the \<open>clip_id\<close> of its entries is unused
    (the type is \<open>Omit<GeneratedClip, 'id'>\<close>).
  \<open>now\<close> is the value of \<open>Date.now()\<close>. \<open>validateClip\<close> is the function
  that \<open>analyzeVideoForClips\<close> maps over the parsed array ("Add IDs and validate
  timestamps"). The prompt sent to the service, the only use of \<open>genre\<close>,
  \<open>lengthPreference\<close> and \<open>userPrompt\<close>, has no part in the result.
\<close>

datatype ai_response = CallFails | NoText | Unparseable | Parsed "GeneratedClip list"

definition validateClip :: "rat \<Rightarrow> nat \<Rightarrow> nat \<Rightarrow> nat \<Rightarrow> GeneratedClip \<Rightarrow> GeneratedClip" where
  "validateClip videoDuration iteration now index clip =
     clip\<lparr>clip_id := ''clip-'' @ string_of_nat now @ ''-'' @ string_of_nat iteration
                       @ ''-'' @ string_of_nat index,
          startTime := min (max 0 (startTime clip)) (videoDuration - 5),
          endTime := min (endTime clip) videoDuration\<rparr>"

definition analyzeVideoForClips ::
  "string \<Rightarrow> Genre \<Rightarrow> ClipLength \<Rightarrow> string \<Rightarrow> rat \<Rightarrow> nat \<Rightarrow> ai_response \<Rightarrow> nat
     \<Rightarrow> GeneratedClip list" where
  "analyzeVideoForClips fileName genre lengthPreference userPrompt videoDuration iteration
       response now =
     (case response of
        Parsed data \<Rightarrow>
          map (\<lambda>(index, clip). validateClip videoDuration iteration now index clip)
              (zip [0 ..< length data] data)
      | _ \<Rightarrow> fallbackClips fileName videoDuration iteration)"

section \<open>The render operation (PreviewSegment: renderClip, downloadClip)\<close>

text \<open>
  \<open>renderClip\<close> returns a promise and works through event handlers on one event
  loop. The model is a state machine: \<open>renderClip_setup\<close> is the synchronous body of
  the promise's executor, each handler is a function on the state, and \<open>step\<close>
  dispatches one event to its handler when that handler is registered. Every call with an
  effect outside the closure is appended to \<open>trace\<close>, in call order.
\<close>

text \<open>
  The calls of the executor body that create a resource of the runtime. They stand outside
  any \<open>try\<close>: when one of them throws, the executor ends there and the promise is
  rejected with what was thrown.
\<close>

datatype setup_call =
  NewAudioContextCall | CreateMediaStreamDestinationCall | CaptureStreamCall
  | NewMediaRecorderCall

datatype render_error =
  NoCanvasContext | SetupThrew setup_call | PlaybackError | VideoLoadError

text \<open>A data chunk of the recorder is modelled by its size, all the code reads of it.\<close>

record Blob =
  blob_parts :: "nat list"
  blob_type :: string

datatype outcome = Pending | Resolved Blob | Rejected render_error

datatype effect =
    CreateObjectURL
  | RevokeObjectURL
  | NewAudioContext
  | CreateMediaStreamDestination
  | CaptureStream
  | NewMediaRecorder string
  | CreateMediaElementSource
  | ConnectSource
  | AddTrack
  | ConsoleWarn
  | ConsoleError
  | SetCurrentTime rat
  | RecorderStart
  | RecorderStop
  | VideoPlay
  | VideoPause
  | DrawImage CropRect
  | DrawNonFinite
  | OnProgress "rat option"
  | RequestAnimationFrame
  | CancelAnimationFrame
  | ClearVideoSrc
  | AudioContextClose

text \<open>What a tick reads from the video element.\<close>

record video_obs =
  paused :: bool
  ended :: bool
  currentTime :: rat
  videoWidth :: nat
  videoHeight :: nat

text \<open>
  What the runtime answers during the setup: whether the canvas has a 2d context, whether
  each of the four calls above returns (\<open>True\<close>) or throws, and what
  \<open>MediaRecorder.isTypeSupported\<close> says. \<open>audio_context_ok\<close> is
  \<open>False\<close> where neither \<open>window.AudioContext\<close> nor
  \<open>webkitAudioContext\<close> exists or the constructor refuses;
  \<open>media_recorder_ok\<close> is \<open>False\<close> where \<open>MediaRecorder\<close> is
  missing or its constructor refuses the stream or the type.
\<close>

record setup_env =
  ctx_available :: bool
  audio_context_ok :: bool
  stream_destination_ok :: bool
  capture_stream_ok :: bool
  media_recorder_ok :: bool
  mp4_supported :: bool
  webm_h264_supported :: bool

text \<open>
  How far the \<open>try\<close> block of \<open>onloadedmetadata\<close> gets: one of its three
  calls throws, or it ends with or without an audio track to add.
\<close>

datatype audio_attempt =
  ThrowsAtCreateSource | ThrowsAtConnect | ThrowsAtAddTrack | NoAudioTrack | TrackAdded

datatype event =
    LoadedMetadata audio_attempt
  | CanPlay
  | Seeked rat
  | PlayFulfilled video_obs
  | PlayRejected
  | AnimationFrame video_obs
  | DataAvailable nat
  | RecorderStopped
  | VideoError

text \<open>
  The closure of one render: its constants (\<open>clip\<close>, \<open>target\<close>,
  \<open>mimeType\<close>), the promise, the recorder's chunk buffer, and which callbacks are
  pending: \<open>onloadedmetadata_set\<close> (the setup got as far as assigning
  \<open>video.onloadedmetadata\<close>), \<open>installed\<close> (the setup ran to its end: the
  recorder's handlers and \<open>video.onerror\<close> are assigned),
  \<open>oncanplay_set\<close> and \<open>onseeked_set\<close> (the handler is not yet \<open>null\<close>),
  \<open>play_pending\<close> (the promise of \<open>video.play()\<close>), \<open>raf_pending\<close>
  (a requested animation frame), \<open>stop_pending\<close> (\<open>recorder.stop()\<close> was called
  and \<open>onstop\<close> has not run yet).
\<close>

record render_state =
  clip :: GeneratedClip
  target :: TargetGeometry
  mimeType :: string
  trace :: "effect list"
  promise :: outcome
  chunks :: "nat list"
  onloadedmetadata_set :: bool
  installed :: bool
  oncanplay_set :: bool
  onseeked_set :: bool
  play_pending :: bool
  raf_pending :: bool
  stop_pending :: bool

definition emit :: "effect list \<Rightarrow> render_state \<Rightarrow> render_state" where
  "emit es s = s\<lparr>trace := trace s @ es\<rparr>"

text \<open>\<open>resolve\<close> and \<open>reject\<close>: a promise settles once, later calls do nothing.\<close>

definition settle :: "outcome \<Rightarrow> render_state \<Rightarrow> render_state" where
  "settle out s = (if promise s = Pending then s\<lparr>promise := out\<rparr> else s)"

definition chooseMimeType :: "setup_env \<Rightarrow> string" where
  "chooseMimeType env =
     (if \<not> mp4_supported env
      then (if webm_h264_supported env then ''video/webm;codecs=h264'' else ''video/webm'')
      else ''video/mp4'')"

text \<open>
  The executor body, in source order. The object URL is created first. Without a 2d
  context the promise is rejected and the executor returns. Then the audio context, its
  stream destination and the canvas stream are created, \<open>video.onloadedmetadata\<close>
  is assigned, the type is chosen and the recorder is created; the remaining handlers are
  assigned last. A call that throws ends the executor at that point: what was created
  before stays, what was assigned before stays assigned, and the promise is rejected.
  \<open>chooseMimeType\<close> is the block "Check supported types".
\<close>

definition renderClip_setup :: "GeneratedClip \<Rightarrow> AspectRatio \<Rightarrow> setup_env \<Rightarrow> render_state" where
  "renderClip_setup c ratio env =
     (let s0 = \<lparr>clip = c, target = getTargetDimensions ratio, mimeType = [],
                trace = [CreateObjectURL], promise = Pending, chunks = [],
                onloadedmetadata_set = False, installed = False,
                oncanplay_set = False, onseeked_set = False,
                play_pending = False, raf_pending = False, stop_pending = False\<rparr>
      in if \<not> ctx_available env then settle (Rejected NoCanvasContext) s0
         else if \<not> audio_context_ok env
           then settle (Rejected (SetupThrew NewAudioContextCall)) s0
         else if \<not> stream_destination_ok env
           then settle (Rejected (SetupThrew CreateMediaStreamDestinationCall))
                  (emit [NewAudioContext] s0)
         else if \<not> capture_stream_ok env
           then settle (Rejected (SetupThrew CaptureStreamCall))
                  (emit [NewAudioContext, CreateMediaStreamDestination] s0)
         else if \<not> media_recorder_ok env
           then settle (Rejected (SetupThrew NewMediaRecorderCall))
                  ((emit [NewAudioContext, CreateMediaStreamDestination, CaptureStream] s0)
                     \<lparr>onloadedmetadata_set := True\<rparr>)
         else (emit [NewAudioContext, CreateMediaStreamDestination, CaptureStream,
                     NewMediaRecorder (chooseMimeType env)] s0)
                \<lparr>mimeType := chooseMimeType env, onloadedmetadata_set := True,
                 installed := True, oncanplay_set := True, onseeked_set := True\<rparr>)"

definition onloadedmetadata :: "audio_attempt \<Rightarrow> render_state \<Rightarrow> render_state" where
  "onloadedmetadata a s =
     (case a of
        ThrowsAtCreateSource \<Rightarrow> emit [ConsoleWarn] s
      | ThrowsAtConnect \<Rightarrow> emit [CreateMediaElementSource, ConsoleWarn] s
      | ThrowsAtAddTrack \<Rightarrow> emit [CreateMediaElementSource, ConnectSource, ConsoleWarn] s
      | NoAudioTrack \<Rightarrow> emit [CreateMediaElementSource, ConnectSource] s
      | TrackAdded \<Rightarrow> emit [CreateMediaElementSource, ConnectSource, AddTrack] s)"

definition oncanplay :: "render_state \<Rightarrow> render_state" where
  "oncanplay s = emit [SetCurrentTime (startTime (clip s))] (s\<lparr>oncanplay_set := False\<rparr>)"

text \<open>\<open>onseeked\<close>, run with the position \<open>ct\<close> the element reports. No \<open>else\<close>.\<close>

definition onseeked :: "rat \<Rightarrow> render_state \<Rightarrow> render_state" where
  "onseeked ct s =
     (let s1 = s\<lparr>onseeked_set := False\<rparr>
      in if \<bar>ct - startTime (clip s)\<bar> < 1 / 2
         then (emit [RecorderStart, VideoPlay] s1)\<lparr>play_pending := True\<rparr>
         else s1)"

definition onplayrejected :: "render_state \<Rightarrow> render_state" where
  "onplayrejected s = settle (Rejected PlaybackError) (emit [ConsoleError] s)"

text \<open>
  The progress of a tick at position \<open>ct\<close>:
  \<open>Math.min(99, Math.max(0, currentProgress))\<close>. When \<open>endTime = startTime\<close>
  the division is by zero: a positive numerator gives \<open>Infinity\<close>, which the clamp
  turns into 99, a negative one \<open>-Infinity\<close>, which it turns into 0, and
  \<open>0 / 0\<close> gives \<open>NaN\<close>, which \<open>Math.max\<close> and \<open>Math.min\<close>
  pass on. \<open>None\<close> stands for \<open>NaN\<close>.
\<close>

definition progress_value :: "GeneratedClip \<Rightarrow> rat \<Rightarrow> rat option" where
  "progress_value c ct =
     (case divide_checked (ct - startTime c) (endTime c - startTime c) of
        Some q \<Rightarrow> Some (min 99 (max 0 (q * 100)))
      | None \<Rightarrow>
          if ct - startTime c > 0 then Some 99
          else if ct - startTime c < 0 then Some 0
          else None)"

definition renderFrame :: "video_obs \<Rightarrow> render_state \<Rightarrow> render_state" where
  "renderFrame obs s =
     (if (paused obs \<or> ended obs) \<and> currentTime obs \<ge> endTime (clip s)
      then (emit [RecorderStop, CancelAnimationFrame] s)\<lparr>stop_pending := True\<rparr>
      else
        let s1 = (case renderFrame_draw (videoWidth obs) (videoHeight obs) (target s) of
                    Skipped \<Rightarrow> s
                  | Drawn c \<Rightarrow> emit [DrawImage c] s
                  | DivisionByZero \<Rightarrow> emit [DrawNonFinite] s);
            s2 = emit [OnProgress (progress_value (clip s) (currentTime obs))] s1
        in if currentTime obs \<ge> endTime (clip s)
           then (emit [VideoPause, RecorderStop, CancelAnimationFrame] s2)\<lparr>stop_pending := True\<rparr>
           else (emit [RequestAnimationFrame] s2)\<lparr>raf_pending := True\<rparr>)"

definition ondataavailable :: "nat \<Rightarrow> render_state \<Rightarrow> render_state" where
  "ondataavailable n s = (if n > 0 then s\<lparr>chunks := chunks s @ [n]\<rparr> else s)"

definition onstop :: "render_state \<Rightarrow> render_state" where
  "onstop s =
     settle (Resolved \<lparr>blob_parts = chunks s, blob_type = mimeType s\<rparr>)
       (emit [ClearVideoSrc, AudioContextClose] s)"

definition onerror :: "render_state \<Rightarrow> render_state" where
  "onerror s = settle (Rejected VideoLoadError) s"

text \<open>One event: it reaches its handler only when that handler is registered or pending.\<close>

fun step :: "event \<Rightarrow> render_state \<Rightarrow> render_state" where
  "step (LoadedMetadata a) s = (if onloadedmetadata_set s then onloadedmetadata a s else s)"
| "step CanPlay s = (if oncanplay_set s then oncanplay s else s)"
| "step (Seeked ct) s = (if onseeked_set s then onseeked ct s else s)"
| "step (PlayFulfilled obs) s =
     (if play_pending s then renderFrame obs (s\<lparr>play_pending := False\<rparr>) else s)"
| "step PlayRejected s =
     (if play_pending s then onplayrejected (s\<lparr>play_pending := False\<rparr>) else s)"
| "step (AnimationFrame obs) s =
     (if raf_pending s then renderFrame obs (s\<lparr>raf_pending := False\<rparr>) else s)"
| "step (DataAvailable n) s = (if installed s then ondataavailable n s else s)"
| "step RecorderStopped s =
     (if stop_pending s then onstop (s\<lparr>stop_pending := False\<rparr>) else s)"
| "step VideoError s = (if installed s then onerror s else s)"

fun run :: "event list \<Rightarrow> render_state \<Rightarrow> render_state" where
  "run [] s = s"
| "run (e # es) s = run es (step e s)"

definition renderClip ::
  "GeneratedClip \<Rightarrow> AspectRatio \<Rightarrow> setup_env \<Rightarrow> event list \<Rightarrow> render_state" where
  "renderClip c ratio env evs = run evs (renderClip_setup c ratio env)"

text \<open>The values handed to \<open>onProgress\<close>, in call order.\<close>

definition delivered :: "effect list \<Rightarrow> rat option list" where
  "delivered es = concat (map (\<lambda>e. case e of OnProgress v \<Rightarrow> [v] | _ \<Rightarrow> []) es)"

text \<open>The positions the ticks of an event sequence read, in order.\<close>

fun obs_times :: "event list \<Rightarrow> rat list" where
  "obs_times [] = []"
| "obs_times (PlayFulfilled obs # es) = currentTime obs # obs_times es"
| "obs_times (AnimationFrame obs # es) = currentTime obs # obs_times es"
| "obs_times (_ # es) = obs_times es"

text \<open>
  \<open>downloadClip\<close>, the caller: the arguments of its calls of
  \<open>setDownloadProgress\<close>, in order, where \<open>evs\<close> are the events of the render up
  to the moment its promise settles. \<open>onProgress\<close> is \<open>setDownloadProgress\<close>;
  the \<open>finally\<close> block runs once the awaited promise has settled, after success as
  after failure.
\<close>

definition downloadClip ::
  "bool \<Rightarrow> GeneratedClip \<Rightarrow> AspectRatio \<Rightarrow> setup_env \<Rightarrow> event list \<Rightarrow> rat option list" where
  "downloadClip originalFile c ratio env evs =
     (if \<not> originalFile then []
      else let s = renderClip c ratio env evs
           in [Some 0] @ delivered (trace s)
              @ (if promise s = Pending then [] else [Some 0]))"

text \<open>
  The clamp in the words of the specification: the fraction of the clip played, in
  percent, cut off below at 0 and above at 99.
\<close>

definition spec_progress :: "GeneratedClip \<Rightarrow> rat \<Rightarrow> rat" where
  "spec_progress c ct =
     (let p = (ct - startTime c) / (endTime c - startTime c) * 100
      in if p < 0 then 0 else if p > 99 then 99 else p)"

text \<open>Effects that touch the canvas, and effects of the audio wiring.\<close>

fun is_draw :: "effect \<Rightarrow> bool" where
  "is_draw (DrawImage c) = True"
| "is_draw DrawNonFinite = True"
| "is_draw _ = False"

fun is_audio :: "effect \<Rightarrow> bool" where
  "is_audio CreateMediaElementSource = True"
| "is_audio ConnectSource = True"
| "is_audio AddTrack = True"
| "is_audio ConsoleWarn = True"
| "is_audio _ = False"

fun throws :: "audio_attempt \<Rightarrow> bool" where
  "throws ThrowsAtCreateSource = True"
| "throws ThrowsAtConnect = True"
| "throws ThrowsAtAddTrack = True"
| "throws _ = False"

section \<open>Sample inputs\<close>

text \<open>
  Concrete inputs on which the theorems below are evaluated: a runtime with a 2d context,
  in which every call of the setup returns, and with H.264 in WebM, a 1920 x 1080 source that is playing, the first fallback clip of a
  600 s video (10 s to 40 s), and the events of one complete render of it.
\<close>

definition sample_env :: setup_env where
  "sample_env =
     \<lparr>ctx_available = True, audio_context_ok = True, stream_destination_ok = True,
      capture_stream_ok = True, media_recorder_ok = True,
      mp4_supported = False, webm_h264_supported = True\<rparr>"

definition sample_obs :: "rat \<Rightarrow> video_obs" where
  "sample_obs t =
     \<lparr>paused = False, ended = False, currentTime = t, videoWidth = 1920, videoHeight = 1080\<rparr>"

definition sample_clip :: GeneratedClip where
  "sample_clip = fallbackClip ''talk.mp4'' 600 1 0"

definition sample_events :: "audio_attempt \<Rightarrow> event list" where
  "sample_events a =
     [LoadedMetadata a, CanPlay, Seeked 10, PlayFulfilled (sample_obs 10),
      AnimationFrame (sample_obs 25), DataAvailable 5000, AnimationFrame (sample_obs 40),
      DataAvailable 70, RecorderStopped]"

text \<open>Two runs differ at most in the effects of the audio wiring.\<close>

definition same_video :: "render_state \<Rightarrow> render_state \<Rightarrow> bool" where
  "same_video s s' \<longleftrightarrow>
     s' = s\<lparr>trace := trace s'\<rparr>
     \<and> filter (\<lambda>e. \<not> is_audio e) (trace s) = filter (\<lambda>e. \<not> is_audio e) (trace s')"

section \<open>Geometry: the target table\<close>

lemma getTargetDimensions_pos:
  "0 < width (getTargetDimensions r) \<and> 0 < height (getTargetDimensions r)"
  by (cases r) simp_all

text \<open>
  C1, as amended. For every value of the enum, \<open>getTargetDimensions\<close> returns a pair
  of the table whose shorter edge is 1080 pixels ("1080p base"); the longer edge is 1080
  for 1:1, 1350 for 4:5 and 5:4, and 1920 for 9:16 and 16:9.
\<close>

theorem getTargetDimensions_short_edge:
  "min (width (getTargetDimensions r)) (height (getTargetDimensions r)) = 1080
   \<and> ((max (width (getTargetDimensions r)) (height (getTargetDimensions r)) = 1080)
        = (r = SQUARE))
   \<and> ((max (width (getTargetDimensions r)) (height (getTargetDimensions r)) = 1350)
        = (r = FOUR_FIVE \<or> r = FIVE_FOUR))
   \<and> ((max (width (getTargetDimensions r)) (height (getTargetDimensions r)) = 1920)
        = (r = PORTRAIT \<or> r = LANDSCAPE))"
  by (cases r) simp_all

text \<open>C1 as stated fails: for 9:16 the longer edge of the pair is 1920, not 1080.\<close>

theorem getTargetDimensions_long_edge_counterexample:
  "max (width (getTargetDimensions PORTRAIT)) (height (getTargetDimensions PORTRAIT)) = 1920
   \<and> max (width (getTargetDimensions PORTRAIT)) (height (getTargetDimensions PORTRAIT)) \<noteq> 1080"
  by simp

section \<open>Geometry: the crop rectangle\<close>

lemma crop_wide_eq:
  assumes "0 < vh" and "0 < height t"
    and "(of_nat vw :: rat) / of_nat vh > of_nat (width t) / of_nat (height t)"
  shows "renderFrame_crop vw vh t =
     Some \<lparr>sx = (of_nat vw - of_nat vh * (of_nat (width t) / of_nat (height t))) / 2, sy = 0,
           sWidth = of_nat vh * (of_nat (width t) / of_nat (height t)), sHeight = of_nat vh\<rparr>"
  using assms by (simp add: renderFrame_crop_def divide_checked_def)

lemma crop_tall_eq:
  assumes "0 < vh" and "0 < width t" and "0 < height t"
    and "\<not> (of_nat vw :: rat) / of_nat vh > of_nat (width t) / of_nat (height t)"
  shows "renderFrame_crop vw vh t =
     Some \<lparr>sx = 0, sy = (of_nat vh - of_nat vw / (of_nat (width t) / of_nat (height t))) / 2,
           sWidth = of_nat vw, sHeight = of_nat vw / (of_nat (width t) / of_nat (height t))\<rparr>"
  using assms by (simp add: renderFrame_crop_def divide_checked_def)

lemma crop_wide:
  assumes "0 < vh" and "0 < height t"
    and "(of_nat vw :: rat) / of_nat vh > of_nat (width t) / of_nat (height t)"
  shows "\<exists>c. renderFrame_crop vw vh t = Some c \<and> sHeight c = of_nat vh
     \<and> sWidth c = of_nat vh * of_nat (width t) / of_nat (height t)
     \<and> sy c = 0 \<and> sx c = (of_nat vw - sWidth c) / 2
     \<and> sx c = of_nat vw - (sx c + sWidth c)"
proof -
  define w :: rat where "w = of_nat vh * (of_nat (width t) / of_nat (height t))"
  have "renderFrame_crop vw vh t =
      Some \<lparr>sx = (of_nat vw - w) / 2, sy = 0, sWidth = w, sHeight = of_nat vh\<rparr>"
    unfolding w_def using assms by (intro crop_wide_eq)
  moreover have "(of_nat vw - w) / 2 = of_nat vw - ((of_nat vw - w) / 2 + w)"
    by (simp add: field_simps)
  ultimately show ?thesis by (simp add: w_def)
qed

lemma crop_tall:
  assumes "0 < vh" and "0 < width t" and "0 < height t"
    and "\<not> (of_nat vw :: rat) / of_nat vh > of_nat (width t) / of_nat (height t)"
  shows "\<exists>c. renderFrame_crop vw vh t = Some c \<and> sWidth c = of_nat vw
     \<and> sHeight c = of_nat vw / (of_nat (width t) / of_nat (height t))
     \<and> sx c = 0 \<and> sy c = (of_nat vh - sHeight c) / 2
     \<and> sy c = of_nat vh - (sy c + sHeight c)"
proof -
  define h :: rat where "h = of_nat vw / (of_nat (width t) / of_nat (height t))"
  have "renderFrame_crop vw vh t =
      Some \<lparr>sx = 0, sy = (of_nat vh - h) / 2, sWidth = of_nat vw, sHeight = h\<rparr>"
    unfolding h_def using assms by (intro crop_tall_eq)
  moreover have "(of_nat vh - h) / 2 = of_nat vh - ((of_nat vh - h) / 2 + h)"
    by (simp add: field_simps)
  ultimately show ?thesis by (simp add: h_def)
qed

text \<open>
  C6. For a source with non-zero height and a target with positive dimensions: when the
  source is relatively wider than the target, the crop keeps the full source height, has
  the width \<open>vh * targetW / targetH\<close>, starts at \<open>sy = 0\<close> and is centred
  horizontally (the margin left of it equals the margin right of it); otherwise it keeps
  the full source width, has the height \<open>vw / (targetW / targetH)\<close>, starts at
  \<open>sx = 0\<close> and is centred vertically.
\<close>

theorem crop_matches_target:
  assumes "0 < vh" and "0 < width t" and "0 < height t"
  shows "((of_nat vw :: rat) / of_nat vh > of_nat (width t) / of_nat (height t) \<longrightarrow>
           (\<exists>c. renderFrame_crop vw vh t = Some c \<and> sHeight c = of_nat vh
              \<and> sWidth c = of_nat vh * of_nat (width t) / of_nat (height t)
              \<and> sy c = 0 \<and> sx c = (of_nat vw - sWidth c) / 2
              \<and> sx c = of_nat vw - (sx c + sWidth c)))
       \<and> (\<not> (of_nat vw :: rat) / of_nat vh > of_nat (width t) / of_nat (height t) \<longrightarrow>
           (\<exists>c. renderFrame_crop vw vh t = Some c \<and> sWidth c = of_nat vw
              \<and> sHeight c = of_nat vw / (of_nat (width t) / of_nat (height t))
              \<and> sx c = 0 \<and> sy c = (of_nat vh - sHeight c) / 2
              \<and> sy c = of_nat vh - (sy c + sHeight c)))"
  using crop_wide[OF assms(1,3)] crop_tall[OF assms] by blast

theorem crop_matches_target_witness:
  "(\<exists>c. renderFrame_crop 1920 1080 (getTargetDimensions PORTRAIT) = Some c
        \<and> sHeight c = 1080 \<and> sWidth c = 1215 / 2 \<and> sy c = 0
        \<and> sx c = (1920 - sWidth c) / 2)
   \<and> (\<exists>c. renderFrame_crop 1080 1920 (getTargetDimensions LANDSCAPE) = Some c
        \<and> sWidth c = 1080 \<and> sHeight c = 1215 / 2 \<and> sx c = 0
        \<and> sy c = (1920 - sHeight c) / 2)"
  using crop_matches_target[of 1080 "getTargetDimensions PORTRAIT" 1920]
    crop_matches_target[of 1920 "getTargetDimensions LANDSCAPE" 1080]
  by auto

text \<open>
  C10. For positive source and target dimensions the crop rectangle of a tick exists and
  lies within the source frame, in exact rational arithmetic.
\<close>

theorem crop_within_source:
  assumes "0 < vw" and "0 < vh" and "0 < width t" and "0 < height t"
  shows "\<exists>c. renderFrame_crop vw vh t = Some c \<and> 0 \<le> sx c \<and> 0 \<le> sy c
     \<and> sx c + sWidth c \<le> of_nat vw \<and> sy c + sHeight c \<le> of_nat vh"
proof (cases "(of_nat vw :: rat) / of_nat vh > of_nat (width t) / of_nat (height t)")
  case True
  define w :: rat where "w = of_nat vh * (of_nat (width t) / of_nat (height t))"
  have eq: "renderFrame_crop vw vh t =
      Some \<lparr>sx = (of_nat vw - w) / 2, sy = 0, sWidth = w, sHeight = of_nat vh\<rparr>"
    unfolding w_def using assms True by (intro crop_wide_eq)
  from True assms have "w < of_nat vw"
    unfolding w_def by (simp add: pos_less_divide_eq mult.commute)
  then have "0 \<le> (of_nat vw - w) / 2" and "(of_nat vw - w) / 2 + w \<le> of_nat vw"
    by (simp_all add: field_simps)
  with eq show ?thesis by simp
next
  case False
  define h :: rat where "h = of_nat vw / (of_nat (width t) / of_nat (height t))"
  have eq: "renderFrame_crop vw vh t =
      Some \<lparr>sx = 0, sy = (of_nat vh - h) / 2, sWidth = of_nat vw, sHeight = h\<rparr>"
    unfolding h_def using assms False by (intro crop_tall_eq)
  from False assms have "h \<le> of_nat vh"
    unfolding h_def by (simp add: field_simps)
  then have "0 \<le> (of_nat vh - h) / 2" and "(of_nat vh - h) / 2 + h \<le> of_nat vh"
    by (simp_all add: field_simps)
  with eq show ?thesis by simp
qed

theorem crop_within_source_witness:
  "(0::nat) < 1280 \<and> (0::nat) < 720 \<and> 0 < width (getTargetDimensions FOUR_FIVE)
   \<and> 0 < height (getTargetDimensions FOUR_FIVE)
   \<and> (\<exists>c. renderFrame_crop 1280 720 (getTargetDimensions FOUR_FIVE) = Some c
         \<and> 0 \<le> sx c \<and> 0 \<le> sy c \<and> sx c + sWidth c \<le> 1280 \<and> sy c + sHeight c \<le> 720)"
  using crop_within_source[of 1280 720 "getTargetDimensions FOUR_FIVE"]
  by simp

section \<open>Clip suggestions: theorems\<close>

lemma fallbackClips_length: "length (fallbackClips fileName duration iteration) = 4"
  by (simp add: fallbackClips_def)

lemma analyzeVideoForClips_fallback:
  "\<forall>d. response \<noteq> Parsed d \<Longrightarrow>
   analyzeVideoForClips fileName genre lengthPreference userPrompt videoDuration iteration
     response now = fallbackClips fileName videoDuration iteration"
  by (cases response) (simp_all add: analyzeVideoForClips_def)

text \<open>
  The service path does clamp: for a video of at least five seconds every returned clip
  starts within \<open>[0, videoDuration - 5]\<close> and ends at \<open>videoDuration\<close> at the
  latest.
\<close>

lemma analyzeVideoForClips_parsed_bounds:
  assumes "5 \<le> videoDuration"
    and "c \<in> set (analyzeVideoForClips fileName genre lengthPreference userPrompt
                  videoDuration iteration (Parsed data) now)"
  shows "0 \<le> startTime c \<and> startTime c \<le> videoDuration - 5 \<and> endTime c \<le> videoDuration"
  using assms by (auto simp: analyzeVideoForClips_def validateClip_def)

text \<open>
  For a video shorter than five seconds the upper bound wins: the start is
  \<open>videoDuration - 5\<close>, a negative time.
\<close>

lemma analyzeVideoForClips_parsed_short_video:
  assumes "videoDuration < 5"
    and "c \<in> set (analyzeVideoForClips fileName genre lengthPreference userPrompt
                  videoDuration iteration (Parsed data) now)"
  shows "startTime c = videoDuration - 5 \<and> startTime c < 0"
  using assms by (auto simp: analyzeVideoForClips_def validateClip_def)

text \<open>
  C5, at an input where the code departs from it: a 30 s video, first iteration, the
  remote call fails. The four fallback clips end at 40, 45, 50 and 55 seconds, none of
  them within the video: \<open>fallbackClips\<close> does not clamp.
\<close>

theorem fallbackClips_end_beyond_duration:
  "map endTime (analyzeVideoForClips ''talk.mp4'' PODCAST AUTO [] 30 1 CallFails 0)
     = [40, 45, 50, 55]
   \<and> map (\<lambda>c. endTime c \<le> 30)
       (analyzeVideoForClips ''talk.mp4'' PODCAST AUTO [] 30 1 CallFails 0)
     = [False, False, False, False]"
  by (simp add: analyzeVideoForClips_def fallbackClips_def fallbackClip_def Let_def)

text \<open>An answer without text does reach the fallback generator and its four clips.\<close>

lemma analyzeVideoForClips_no_text:
  "length (analyzeVideoForClips fileName genre lengthPreference userPrompt videoDuration
             iteration NoText now) = 4"
  by (simp add: analyzeVideoForClips_def fallbackClips_def)

text \<open>
  C7, at the input where the code departs from it: the service answers with an empty
  array. The answer parses, nothing is thrown, the fallback generator is not reached and
  the call returns no clip at all.
\<close>

theorem analyzeVideoForClips_empty_response:
  "analyzeVideoForClips fileName genre lengthPreference userPrompt videoDuration iteration
     (Parsed []) now = []"
  by (simp add: analyzeVideoForClips_def)

section \<open>The render operation: what every step preserves\<close>

lemmas handler_defs = onloadedmetadata_def oncanplay_def onseeked_def onplayrejected_def
  renderFrame_def ondataavailable_def onstop_def onerror_def emit_def settle_def

lemmas eval_defs = downloadClip_def renderClip_def renderClip_setup_def chooseMimeType_def
  handler_defs delivered_def renderFrame_draw_def renderFrame_crop_def divide_checked_def
  progress_value_def fallbackClip_def Let_def
  sample_env_def sample_obs_def sample_clip_def sample_events_def

lemma step_clip [simp]: "clip (step e s) = clip s"
  by (cases e) (simp_all add: handler_defs Let_def split: audio_attempt.splits draw_result.splits)

lemma step_target [simp]: "target (step e s) = target s"
  by (cases e) (simp_all add: handler_defs Let_def split: audio_attempt.splits draw_result.splits)

lemma step_installed [simp]: "installed (step e s) = installed s"
  by (cases e) (simp_all add: handler_defs Let_def split: audio_attempt.splits draw_result.splits)

lemma step_onloadedmetadata_set [simp]:
  "onloadedmetadata_set (step e s) = onloadedmetadata_set s"
  by (cases e) (simp_all add: handler_defs Let_def split: audio_attempt.splits draw_result.splits)

lemma run_clip [simp]: "clip (run evs s) = clip s"
  by (induction evs arbitrary: s) simp_all

lemma run_target [simp]: "target (run evs s) = target s"
  by (induction evs arbitrary: s) simp_all

lemma run_installed [simp]: "installed (run evs s) = installed s"
  by (induction evs arbitrary: s) simp_all

lemma run_onloadedmetadata_set [simp]:
  "onloadedmetadata_set (run evs s) = onloadedmetadata_set s"
  by (induction evs arbitrary: s) simp_all

lemma run_append: "run (xs @ ys) s = run ys (run xs s)"
  by (induction xs arbitrary: s) simp_all

lemma step_mono_trace: "set (trace s) \<subseteq> set (trace (step e s))"
  by (cases e) (auto simp: handler_defs Let_def split: audio_attempt.splits draw_result.splits)

lemma run_mono_trace: "set (trace s) \<subseteq> set (trace (run evs s))"
proof (induction evs arbitrary: s)
  case Nil
  show ?case by simp
next
  case (Cons e es)
  show ?case using step_mono_trace[of s e] Cons[of "step e s"] by auto
qed

lemma setup_clip: "clip (renderClip_setup c r env) = c"
  by (simp add: renderClip_setup_def Let_def emit_def settle_def)

lemma setup_target: "target (renderClip_setup c r env) = getTargetDimensions r"
  by (simp add: renderClip_setup_def Let_def emit_def settle_def)

lemma setup_installed:
  "installed (renderClip_setup c r env)
     = (ctx_available env \<and> audio_context_ok env \<and> stream_destination_ok env
        \<and> capture_stream_ok env \<and> media_recorder_ok env)"
  by (simp add: renderClip_setup_def Let_def emit_def settle_def)

lemma setup_onloadedmetadata_set:
  "onloadedmetadata_set (renderClip_setup c r env)
     = (ctx_available env \<and> audio_context_ok env \<and> stream_destination_ok env
        \<and> capture_stream_ok env)"
  by (simp add: renderClip_setup_def Let_def emit_def settle_def)

lemma setup_trace:
  "set (trace (renderClip_setup c r env)) \<subseteq>
     {CreateObjectURL, NewAudioContext, CreateMediaStreamDestination, CaptureStream,
      NewMediaRecorder (chooseMimeType env)}"
  by (simp add: renderClip_setup_def Let_def emit_def settle_def)

section \<open>The compositor tick and the source dimensions\<close>

lemma crop_defined:
  "0 < vh \<Longrightarrow> 0 < width t \<Longrightarrow> 0 < height t \<Longrightarrow> renderFrame_crop vw vh t \<noteq> None"
  by (simp add: renderFrame_crop_def divide_checked_def)

lemma draw_no_division_by_zero:
  "0 < width t \<Longrightarrow> 0 < height t \<Longrightarrow> renderFrame_draw vw vh t \<noteq> DivisionByZero"
  using crop_defined[of vh t vw] by (auto simp: renderFrame_draw_def split: option.splits)

lemma draw_skipped: "vw = 0 \<or> vh = 0 \<Longrightarrow> renderFrame_draw vw vh t = Skipped"
  by (auto simp: renderFrame_draw_def)

lemma renderFrame_skips:
  "videoWidth obs = 0 \<or> videoHeight obs = 0 \<Longrightarrow>
     filter is_draw (trace (renderFrame obs s)) = filter is_draw (trace s)"
  by (simp add: renderFrame_def emit_def Let_def draw_skipped)

lemma step_no_nonfinite:
  assumes "0 < width (target s)" and "0 < height (target s)"
    and "DrawNonFinite \<notin> set (trace s)"
  shows "DrawNonFinite \<notin> set (trace (step e s))"
proof (cases e)
  case (PlayFulfilled obs)
  with assms draw_no_division_by_zero[of "target s" "videoWidth obs" "videoHeight obs"]
  show ?thesis by (auto simp: renderFrame_def emit_def Let_def split: draw_result.splits)
next
  case (AnimationFrame obs)
  with assms draw_no_division_by_zero[of "target s" "videoWidth obs" "videoHeight obs"]
  show ?thesis by (auto simp: renderFrame_def emit_def Let_def split: draw_result.splits)
qed (use assms in \<open>auto simp: handler_defs Let_def split: audio_attempt.splits\<close>)

lemma run_no_nonfinite:
  "0 < width (target s) \<Longrightarrow> 0 < height (target s) \<Longrightarrow> DrawNonFinite \<notin> set (trace s)
     \<Longrightarrow> DrawNonFinite \<notin> set (trace (run evs s))"
  by (induction evs arbitrary: s) (simp_all add: step_no_nonfinite)

lemma setup_no_nonfinite: "DrawNonFinite \<notin> set (trace (renderClip_setup c r env))"
  by (simp add: renderClip_setup_def Let_def emit_def settle_def)

text \<open>
  C9. On a tick that reads a zero source width or height, nothing is cropped and nothing
  is drawn: the tick leaves the canvas effects of the trace as they were. For every ratio
  of the enum and all source dimensions the crop arithmetic divides by no zero, and no run
  of a render ever draws with the result of a division by zero.
\<close>

theorem tick_skips_unknown_dimensions:
  "(videoWidth obs = 0 \<or> videoHeight obs = 0 \<longrightarrow>
       renderFrame_draw (videoWidth obs) (videoHeight obs) (target s) = Skipped
     \<and> filter is_draw (trace (renderFrame obs s)) = filter is_draw (trace s))
   \<and> renderFrame_draw vw vh (getTargetDimensions r) \<noteq> DivisionByZero
   \<and> DrawNonFinite \<notin> set (trace (renderClip c r env evs))"
proof -
  have "DrawNonFinite \<notin> set (trace (renderClip c r env evs))"
    unfolding renderClip_def
    by (rule run_no_nonfinite)
       (simp_all add: setup_target setup_no_nonfinite getTargetDimensions_pos)
  then show ?thesis
    by (simp add: draw_skipped renderFrame_skips draw_no_division_by_zero
        getTargetDimensions_pos)
qed

theorem tick_skips_unknown_dimensions_witness:
  "videoWidth ((sample_obs 10)\<lparr>videoWidth := 0\<rparr>) = 0
   \<and> renderFrame_draw 0 1080 (getTargetDimensions PORTRAIT) = Skipped
   \<and> filter is_draw (trace (renderFrame ((sample_obs 10)\<lparr>videoWidth := 0\<rparr>)
         (renderClip_setup sample_clip PORTRAIT sample_env)))
       = filter is_draw (trace (renderClip_setup sample_clip PORTRAIT sample_env))
   \<and> renderFrame_draw 1920 0 (getTargetDimensions SQUARE) \<noteq> DivisionByZero
   \<and> DrawNonFinite \<notin> set (trace (renderClip sample_clip SQUARE sample_env
                                   (sample_events TrackAdded)))"
  using tick_skips_unknown_dimensions[of "(sample_obs 10)\<lparr>videoWidth := 0\<rparr>"
      "renderClip_setup sample_clip PORTRAIT sample_env" 1920 0 SQUARE sample_clip
      sample_env "sample_events TrackAdded"]
  by (simp add: sample_obs_def setup_target)

section \<open>Progress values\<close>

lemma delivered_append [simp]: "delivered (xs @ ys) = delivered xs @ delivered ys"
  by (simp add: delivered_def)

lemma delivered_Nil [simp]: "delivered [] = []"
  by (simp add: delivered_def)

lemma delivered_renderFrame:
  "delivered (trace (renderFrame obs s)) = delivered (trace s) \<or>
   delivered (trace (renderFrame obs s))
     = delivered (trace s) @ [progress_value (clip s) (currentTime obs)]"
  by (simp add: renderFrame_def emit_def Let_def delivered_def split: draw_result.splits)

lemma delivered_tick:
  assumes "delivered (trace (renderFrame obs s')) = delivered (trace s') \<or>
     delivered (trace (renderFrame obs s'))
       = delivered (trace s') @ [progress_value (clip s') (currentTime obs)]"
    and "trace s' = trace s" and "clip s' = clip s"
  shows "\<exists>ts. subseq ts [currentTime obs] \<and>
     delivered (trace (renderFrame obs s'))
       = delivered (trace s) @ map (progress_value (clip s)) ts"
  using assms(1)
proof
  assume "delivered (trace (renderFrame obs s')) = delivered (trace s')"
  with assms(2) show ?thesis by (intro exI[of _ "[]"]) simp
next
  assume "delivered (trace (renderFrame obs s'))
      = delivered (trace s') @ [progress_value (clip s') (currentTime obs)]"
  with assms(2,3) show ?thesis by (intro exI[of _ "[currentTime obs]"]) simp
qed

lemma delivered_step:
  "\<exists>ts. subseq ts (obs_times [e]) \<and>
     delivered (trace (step e s)) = delivered (trace s) @ map (progress_value (clip s)) ts"
proof (cases e)
  case (PlayFulfilled obs)
  show ?thesis
  proof (cases "play_pending s")
    case True
    with PlayFulfilled
      delivered_tick[OF delivered_renderFrame, of "s\<lparr>play_pending := False\<rparr>" s obs]
    show ?thesis by simp
  next
    case False
    with PlayFulfilled show ?thesis by (intro exI[of _ "[]"]) simp
  qed
next
  case (AnimationFrame obs)
  show ?thesis
  proof (cases "raf_pending s")
    case True
    with AnimationFrame
      delivered_tick[OF delivered_renderFrame, of "s\<lparr>raf_pending := False\<rparr>" s obs]
    show ?thesis by simp
  next
    case False
    with AnimationFrame show ?thesis by (intro exI[of _ "[]"]) simp
  qed
qed (auto simp: handler_defs Let_def delivered_def split: audio_attempt.splits)

lemma obs_times_Cons: "obs_times (e # es) = obs_times [e] @ obs_times es"
  by (cases e) simp_all

lemma delivered_run:
  "\<exists>ts. subseq ts (obs_times evs) \<and>
     delivered (trace (run evs s)) = delivered (trace s) @ map (progress_value (clip s)) ts"
proof (induction evs arbitrary: s)
  case Nil
  show ?case by (intro exI[of _ "[]"]) simp
next
  case (Cons e es)
  obtain t1 where t1: "subseq t1 (obs_times [e])"
    "delivered (trace (step e s)) = delivered (trace s) @ map (progress_value (clip s)) t1"
    using delivered_step by blast
  obtain t2 where t2: "subseq t2 (obs_times es)"
    "delivered (trace (run es (step e s)))
       = delivered (trace (step e s)) @ map (progress_value (clip s)) t2"
    using Cons.IH[of "step e s"] by auto
  have "subseq (t1 @ t2) (obs_times (e # es))"
    using t1(1) t2(1) by (subst obs_times_Cons) (rule list_emb_append_mono)
  moreover have "delivered (trace (run (e # es) s))
      = delivered (trace s) @ map (progress_value (clip s)) (t1 @ t2)"
    using t1(2) t2(2) by simp
  ultimately show ?case by blast
qed

text \<open>The code's \<open>min\<close>/\<open>max\<close> is the clamp of the specification.\<close>

lemma progress_value_spec:
  "startTime c < endTime c \<Longrightarrow> progress_value c ct = Some (spec_progress c ct)"
  by (auto simp: progress_value_def spec_progress_def divide_checked_def Let_def
      min_def max_def)

lemma spec_progress_range: "0 \<le> spec_progress c ct \<and> spec_progress c ct \<le> 99"
  by (simp add: spec_progress_def Let_def)

lemma spec_progress_mono:
  assumes "startTime c < endTime c" and "t \<le> t'"
  shows "spec_progress c t \<le> spec_progress c t'"
proof -
  have "(t - startTime c) / (endTime c - startTime c) * 100
      \<le> (t' - startTime c) / (endTime c - startTime c) * 100"
    using assms by (simp add: divide_right_mono)
  then show ?thesis by (simp add: spec_progress_def Let_def)
qed

lemma subseq_sorted: "subseq xs ys \<Longrightarrow> sorted ys \<Longrightarrow> sorted (xs :: rat list)"
  by (auto simp: subseq_conv_nths sorted_nths)

text \<open>
  C4, as amended. For a clip with \<open>startTime < endTime\<close> and ticks that read
  non-decreasing positions, the values delivered to \<open>onProgress\<close> during one render
  are, in order, the clamped fraction
  \<open>(currentPosition - startTime) / (endTime - startTime) * 100\<close> at positions the ticks
  read; the sequence is non-decreasing and every value lies in \<open>[0, 99]\<close>. The value
  100 is never delivered: success is signalled by the promise alone.
\<close>

theorem progress_monotone_and_clamped:
  assumes "startTime c < endTime c" and "sorted (obs_times evs)"
  shows "\<exists>ts. subseq ts (obs_times evs)
     \<and> delivered (trace (renderClip c ratio env evs)) = map (\<lambda>t. Some (spec_progress c t)) ts
     \<and> sorted (map (spec_progress c) ts)
     \<and> (\<forall>t. 0 \<le> spec_progress c t \<and> spec_progress c t \<le> 99)
     \<and> Some 100 \<notin> set (delivered (trace (renderClip c ratio env evs)))"
proof -
  have init: "delivered (trace (renderClip_setup c ratio env)) = []"
    by (simp add: renderClip_setup_def Let_def emit_def settle_def delivered_def)
  obtain ts where ts: "subseq ts (obs_times evs)"
    "delivered (trace (renderClip c ratio env evs)) = map (progress_value c) ts"
    using delivered_run[of evs "renderClip_setup c ratio env"] init
    by (auto simp: renderClip_def setup_clip)
  have d: "delivered (trace (renderClip c ratio env evs))
      = map (\<lambda>t. Some (spec_progress c t)) ts"
    using ts(2) assms(1) by (simp add: progress_value_spec)
  have "sorted ts" using ts(1) assms(2) by (rule subseq_sorted)
  then have s: "sorted (map (spec_progress c) ts)"
    by (rule sorted_wrt_map_mono) (simp add: spec_progress_mono[OF assms(1)])
  have r: "\<forall>t. 0 \<le> spec_progress c t \<and> spec_progress c t \<le> 99"
    by (simp add: spec_progress_range)
  have "Some 100 \<notin> set (map (\<lambda>t. Some (spec_progress c t)) ts)"
  proof
    assume "Some 100 \<in> set (map (\<lambda>t. Some (spec_progress c t)) ts)"
    then obtain t where "spec_progress c t = 100" by auto
    with spec_progress_range[of c t] show False by simp
  qed
  with ts(1) d s r show ?thesis by auto
qed

theorem progress_monotone_and_clamped_witness:
  "startTime sample_clip < endTime sample_clip
   \<and> sorted (obs_times (sample_events TrackAdded))
   \<and> (\<exists>ts. subseq ts (obs_times (sample_events TrackAdded))
        \<and> delivered (trace (renderClip sample_clip PORTRAIT sample_env
                               (sample_events TrackAdded)))
            = map (\<lambda>t. Some (spec_progress sample_clip t)) ts
        \<and> sorted (map (spec_progress sample_clip) ts)
        \<and> Some 100 \<notin> set (delivered (trace (renderClip sample_clip PORTRAIT sample_env
                                                 (sample_events TrackAdded)))))"
proof -
  have h1: "startTime sample_clip < endTime sample_clip"
    by (simp add: sample_clip_def fallbackClip_def)
  have h2: "sorted (obs_times (sample_events TrackAdded))"
    by (simp add: sample_events_def sample_obs_def)
  from progress_monotone_and_clamped[OF h1 h2, of PORTRAIT sample_env] h1 h2
  show ?thesis by blast
qed

text \<open>
  C4 as stated fails at its last part. In this complete, successful render the callback
  receives 0, 50 and 99 and the promise resolves; \<open>downloadClip\<close> sets the progress
  to 0 first and to 0 again in its \<open>finally\<close> block. No value is 100.
\<close>

theorem terminal_progress_counterexample:
  "promise (renderClip sample_clip PORTRAIT sample_env (sample_events TrackAdded))
     = Resolved \<lparr>blob_parts = [5000, 70], blob_type = ''video/webm;codecs=h264''\<rparr>
   \<and> delivered (trace (renderClip sample_clip PORTRAIT sample_env (sample_events TrackAdded)))
     = [Some 0, Some 50, Some 99]
   \<and> downloadClip True sample_clip PORTRAIT sample_env (sample_events TrackAdded)
     = [Some 0, Some 0, Some 50, Some 99, Some 0]"
  by (simp add: eval_defs)

section \<open>Audio wiring\<close>

lemma same_video_step: "same_video s s' \<Longrightarrow> same_video (step e s) (step e s')"
proof -
  assume "same_video s s'"
  then obtain t where t: "s' = s\<lparr>trace := t\<rparr>"
    and f: "filter (\<lambda>e. \<not> is_audio e) (trace s) = filter (\<lambda>e. \<not> is_audio e) t"
    by (auto simp: same_video_def)
  show ?thesis unfolding t same_video_def using f
    by (cases e)
       (simp_all add: handler_defs Let_def split: audio_attempt.splits draw_result.splits)
qed

lemma same_video_run: "same_video s s' \<Longrightarrow> same_video (run evs s) (run evs s')"
  by (induction evs arbitrary: s s') (simp_all add: same_video_step)

lemma same_video_metadata:
  "same_video (step (LoadedMetadata a) s) (step (LoadedMetadata b) s)"
  by (simp add: same_video_def handler_defs split: audio_attempt.splits)

lemma same_video_promise: "same_video s s' \<Longrightarrow> promise s' = promise s"
proof -
  assume "same_video s s'"
  then have "s' = s\<lparr>trace := trace s'\<rparr>" by (simp add: same_video_def)
  then have "promise s' = promise (s\<lparr>trace := trace s'\<rparr>)" by (rule arg_cong)
  then show ?thesis by simp
qed

lemma same_video_trace:
  "same_video s s' \<Longrightarrow>
     filter (\<lambda>e. \<not> is_audio e) (trace s') = filter (\<lambda>e. \<not> is_audio e) (trace s)"
  by (simp add: same_video_def)

lemma step_addtrack:
  "AddTrack \<in> set (trace (step e s)) \<Longrightarrow>
     AddTrack \<in> set (trace s) \<or> e = LoadedMetadata TrackAdded"
  by (cases e)
     (auto simp: handler_defs Let_def split: audio_attempt.splits draw_result.splits if_splits)

lemma run_addtrack:
  "LoadedMetadata TrackAdded \<notin> set evs \<Longrightarrow> AddTrack \<notin> set (trace s)
    \<Longrightarrow> AddTrack \<notin> set (trace (run evs s))"
proof (induction evs arbitrary: s)
  case Nil
  then show ?case by simp
next
  case (Cons e es)
  from Cons.prems have "AddTrack \<notin> set (trace (step e s))"
    using step_addtrack[of e s] by auto
  with Cons show ?case by simp
qed

lemma throws_warns:
  "throws a \<Longrightarrow> onloadedmetadata_set s \<Longrightarrow>
     ConsoleWarn \<in> set (trace (step (LoadedMetadata a) s))"
  by (cases a) (simp_all add: handler_defs)

text \<open>
  Inside the \<open>try\<close> block the failure is not fatal. When one of the three calls that
  wire the audio graph in \<open>onloadedmetadata\<close> throws, the handler leaves the promise
  as it was and logs a warning; from then on the render goes on exactly as the run in
  which the wiring succeeded does: the promise ends in the same state (the same blob when
  it resolves) and every effect other than those of the audio wiring is the same. No
  audio track is added to the stream, so the output is video only.
\<close>

lemma audio_failure_not_fatal:
  assumes "throws a"
  shows "promise (step (LoadedMetadata a) s) = promise s
    \<and> promise (renderClip c r env (evs1 @ LoadedMetadata a # evs2))
        = promise (renderClip c r env (evs1 @ LoadedMetadata TrackAdded # evs2))
    \<and> filter (\<lambda>e. \<not> is_audio e)
          (trace (renderClip c r env (evs1 @ LoadedMetadata a # evs2)))
        = filter (\<lambda>e. \<not> is_audio e)
          (trace (renderClip c r env (evs1 @ LoadedMetadata TrackAdded # evs2)))
    \<and> (onloadedmetadata_set (renderClip_setup c r env) \<longrightarrow>
          ConsoleWarn \<in> set (trace (renderClip c r env (evs1 @ LoadedMetadata a # evs2))))
    \<and> (LoadedMetadata TrackAdded \<notin> set (evs1 @ evs2) \<longrightarrow>
          AddTrack \<notin> set (trace (renderClip c r env (evs1 @ LoadedMetadata a # evs2))))"
proof -
  let ?s = "run evs1 (renderClip_setup c r env)"
  have sv: "same_video (renderClip c r env (evs1 @ LoadedMetadata TrackAdded # evs2))
                      (renderClip c r env (evs1 @ LoadedMetadata a # evs2))"
    unfolding renderClip_def run_append run.simps
    by (intro same_video_run same_video_metadata)
  have p1: "promise (step (LoadedMetadata a) s) = promise s"
    by (simp add: handler_defs split: audio_attempt.splits)
  have w: "ConsoleWarn \<in> set (trace (renderClip c r env (evs1 @ LoadedMetadata a # evs2)))"
    if "onloadedmetadata_set (renderClip_setup c r env)"
  proof -
    from that have "onloadedmetadata_set ?s" by simp
    then have "ConsoleWarn \<in> set (trace (step (LoadedMetadata a) ?s))"
      using assms by (intro throws_warns)
    then show ?thesis
      unfolding renderClip_def run_append run.simps
      using run_mono_trace[of "step (LoadedMetadata a) ?s" evs2] by blast
  qed
  have n: "AddTrack \<notin> set (trace (renderClip c r env (evs1 @ LoadedMetadata a # evs2)))"
    if "LoadedMetadata TrackAdded \<notin> set (evs1 @ evs2)"
  proof -
    have "a \<noteq> TrackAdded" using assms by auto
    with that have "LoadedMetadata TrackAdded \<notin> set (evs1 @ LoadedMetadata a # evs2)"
      by auto
    moreover have "AddTrack \<notin> set (trace (renderClip_setup c r env))"
      by (simp add: renderClip_setup_def Let_def emit_def settle_def)
    ultimately show ?thesis unfolding renderClip_def by (intro run_addtrack)
  qed
  from same_video_promise[OF sv] same_video_trace[OF sv] p1 w n show ?thesis by simp
qed

lemma audio_failure_not_fatal_example:
  "throws ThrowsAtConnect
   \<and> promise (renderClip sample_clip PORTRAIT sample_env (sample_events ThrowsAtConnect))
       = Resolved \<lparr>blob_parts = [5000, 70], blob_type = ''video/webm;codecs=h264''\<rparr>
   \<and> ConsoleWarn \<in> set (trace (renderClip sample_clip PORTRAIT sample_env
                                 (sample_events ThrowsAtConnect)))
   \<and> AddTrack \<notin> set (trace (renderClip sample_clip PORTRAIT sample_env
                                 (sample_events ThrowsAtConnect)))"
proof -
  define rest where "rest = tl (sample_events TrackAdded)"
  have ev: "sample_events a = [] @ LoadedMetadata a # rest" for a
    by (simp add: rest_def sample_events_def)
  have h: "throws ThrowsAtConnect" by simp
  have ok: "promise (renderClip sample_clip PORTRAIT sample_env (sample_events TrackAdded))
      = Resolved \<lparr>blob_parts = [5000, 70], blob_type = ''video/webm;codecs=h264''\<rparr>"
    by (simp add: eval_defs)
  have c: "onloadedmetadata_set (renderClip_setup sample_clip PORTRAIT sample_env)"
    by (simp add: setup_onloadedmetadata_set sample_env_def)
  have m: "LoadedMetadata TrackAdded \<notin> set ([] @ rest)"
    by (simp add: rest_def sample_events_def)
  from audio_failure_not_fatal[OF h, of _ sample_clip PORTRAIT sample_env "[]" rest] ok c m h
  show ?thesis unfolding ev by simp
qed

text \<open>A setup that ends before any handler is assigned leaves nothing for an event to do.\<close>

lemma run_nothing_registered:
  assumes "\<not> onloadedmetadata_set s" and "\<not> installed s" and "\<not> oncanplay_set s"
    and "\<not> onseeked_set s" and "\<not> play_pending s" and "\<not> raf_pending s"
    and "\<not> stop_pending s"
  shows "run evs s = s"
proof (induction evs)
  case Nil
  show ?case by simp
next
  case (Cons e es)
  from assms have "step e s = s" by (cases e) simp_all
  with Cons show ?case by simp
qed

text \<open>
  The audio context is created, and its stream destination after it, in the executor
  body, before the \<open>try\<close> block exists. The second of the two calls throwing
  leaves the context created and the promise rejected.
\<close>

lemma stream_destination_failure_rejects:
  "promise (renderClip c r (sample_env\<lparr>stream_destination_ok := False\<rparr>) evs)
     = Rejected (SetupThrew CreateMediaStreamDestinationCall)
   \<and> trace (renderClip c r (sample_env\<lparr>stream_destination_ok := False\<rparr>) evs)
     = [CreateObjectURL, NewAudioContext]"
proof -
  have "renderClip c r (sample_env\<lparr>stream_destination_ok := False\<rparr>) evs
      = renderClip_setup c r (sample_env\<lparr>stream_destination_ok := False\<rparr>)"
    unfolding renderClip_def
    by (rule run_nothing_registered)
       (simp_all add: renderClip_setup_def sample_env_def Let_def settle_def emit_def)
  then show ?thesis
    by (simp add: renderClip_setup_def sample_env_def Let_def settle_def emit_def)
qed

text \<open>
  C8, at an input where the code departs from it: a runtime in which
  \<open>new AudioContextClass()\<close> throws (no audio context to be had) while everything
  else is available. The call stands in the executor body, outside the \<open>try\<close> of
  \<open>onloadedmetadata\<close>: the promise is rejected with what was thrown, nothing is
  logged as a warning, no handler is assigned and no event continues the render, so no
  video-only output is produced; \<open>downloadClip\<close> sets the progress to 0 twice and
  never receives a value in between.
\<close>

theorem audio_context_failure_rejects:
  "promise (renderClip c r (sample_env\<lparr>audio_context_ok := False\<rparr>) evs)
     = Rejected (SetupThrew NewAudioContextCall)
   \<and> trace (renderClip c r (sample_env\<lparr>audio_context_ok := False\<rparr>) evs)
     = [CreateObjectURL]
   \<and> downloadClip True c r (sample_env\<lparr>audio_context_ok := False\<rparr>) evs
     = [Some 0, Some 0]"
proof -
  have "renderClip c r (sample_env\<lparr>audio_context_ok := False\<rparr>) evs
      = renderClip_setup c r (sample_env\<lparr>audio_context_ok := False\<rparr>)"
    unfolding renderClip_def
    by (rule run_nothing_registered)
       (simp_all add: renderClip_setup_def sample_env_def Let_def settle_def emit_def)
  then show ?thesis
    by (simp add: downloadClip_def renderClip_setup_def sample_env_def Let_def settle_def
        emit_def delivered_def)
qed

section \<open>Seek tolerance\<close>

lemma idle_step:
  assumes "\<not> onseeked_set s" and "\<not> play_pending s" and "\<not> raf_pending s"
    and "\<not> stop_pending s" and "promise s = Pending" and "e \<noteq> VideoError"
  shows "\<not> onseeked_set (step e s) \<and> \<not> play_pending (step e s) \<and> \<not> raf_pending (step e s)
     \<and> \<not> stop_pending (step e s) \<and> promise (step e s) = Pending
     \<and> (RecorderStart \<in> set (trace (step e s)) \<longrightarrow> RecorderStart \<in> set (trace s))"
  using assms by (cases e) (auto simp: handler_defs Let_def split: audio_attempt.splits)

lemma idle_run:
  assumes "\<not> onseeked_set s" and "\<not> play_pending s" and "\<not> raf_pending s"
    and "\<not> stop_pending s" and "promise s = Pending" and "VideoError \<notin> set evs"
    and "RecorderStart \<notin> set (trace s)"
  shows "promise (run evs s) = Pending \<and> RecorderStart \<notin> set (trace (run evs s))"
  using assms
proof (induction evs arbitrary: s)
  case Nil
  then show ?case by simp
next
  case (Cons e es)
  have "e \<noteq> VideoError" using Cons.prems by auto
  from idle_step[OF Cons.prems(1-5) this] Cons.prems(7)
  show ?case using Cons.IH[of "step e s"] Cons.prems(6) by auto
qed

text \<open>
  After a seek that lands half a second or more from \<open>startTime\<close> the handler has
  done nothing but unregister itself: the recorder is never started, and unless the video
  element reports an error the promise is never settled, whatever events follow.
\<close>

lemma seek_outside_tolerance_never_settles:
  assumes "\<bar>ct - startTime (clip s)\<bar> \<ge> 1 / 2" and "onseeked_set s"
    and "\<not> play_pending s" and "\<not> raf_pending s" and "\<not> stop_pending s"
    and "promise s = Pending" and "VideoError \<notin> set evs"
    and "RecorderStart \<notin> set (trace s)"
  shows "promise (run (Seeked ct # evs) s) = Pending
     \<and> RecorderStart \<notin> set (trace (run (Seeked ct # evs) s))"
  using assms by (simp add: onseeked_def Let_def) (intro idle_run; simp)

text \<open>
  C2, at an input where the code departs from it: the third fallback clip of a 12 s video
  starts at 14 s, the seek to 14 s ends at the end of the video, 12 s, two seconds from
  the requested start. \<open>onseeked\<close> has no \<open>else\<close> branch: the promise is
  neither rejected nor resolved, the recorder is not started, and the events that follow
  find no handler.
\<close>

theorem seek_outside_tolerance_stays_pending:
  "startTime (fallbackClip ''talk.mp4'' 12 1 2) = 14
   \<and> promise (renderClip (fallbackClip ''talk.mp4'' 12 1 2) PORTRAIT sample_env
        [LoadedMetadata TrackAdded, CanPlay, Seeked 12, CanPlay, DataAvailable 0])
       = Pending
   \<and> trace (renderClip (fallbackClip ''talk.mp4'' 12 1 2) PORTRAIT sample_env
        [LoadedMetadata TrackAdded, CanPlay, Seeked 12, CanPlay, DataAvailable 0])
     = [CreateObjectURL, NewAudioContext, CreateMediaStreamDestination, CaptureStream,
        NewMediaRecorder ''video/webm;codecs=h264'', CreateMediaElementSource,
        ConnectSource, AddTrack, SetCurrentTime 14]"
  by (simp add: eval_defs)

section \<open>Release of resources\<close>

lemma object_url_never_revoked: "RevokeObjectURL \<notin> set (trace (renderClip c r env evs))"
proof -
  have st: "RevokeObjectURL \<notin> set (trace (step e s))"
    if "RevokeObjectURL \<notin> set (trace s)" for e s
    using that
    by (cases e)
       (auto simp: handler_defs Let_def split: audio_attempt.splits draw_result.splits)
  have "RevokeObjectURL \<notin> set (trace (run evs s))"
    if "RevokeObjectURL \<notin> set (trace s)" for s
    using that by (induction evs arbitrary: s) (simp_all add: st)
  then show ?thesis unfolding renderClip_def
    by (simp add: renderClip_setup_def Let_def emit_def settle_def)
qed

text \<open>
  Two more failure paths: without a 2d context the executor returns with the object URL
  already created; when \<open>video.play()\<close> is rejected the recorder has been started
  and is left running.
\<close>

lemma no_context_leaves_object_url:
  "promise (renderClip c r (sample_env\<lparr>ctx_available := False\<rparr>) evs)
     = Rejected NoCanvasContext
   \<and> trace (renderClip c r (sample_env\<lparr>ctx_available := False\<rparr>) evs) = [CreateObjectURL]"
proof -
  have "renderClip c r (sample_env\<lparr>ctx_available := False\<rparr>) evs
      = renderClip_setup c r (sample_env\<lparr>ctx_available := False\<rparr>)"
    unfolding renderClip_def
    by (rule run_nothing_registered)
       (simp_all add: renderClip_setup_def sample_env_def Let_def settle_def emit_def)
  then show ?thesis
    by (simp add: renderClip_setup_def sample_env_def Let_def settle_def emit_def)
qed

lemma play_rejection_leaves_recorder_running:
  "promise (renderClip sample_clip PORTRAIT sample_env
      [LoadedMetadata TrackAdded, CanPlay, Seeked 10, PlayRejected]) = Rejected PlaybackError
   \<and> trace (renderClip sample_clip PORTRAIT sample_env
      [LoadedMetadata TrackAdded, CanPlay, Seeked 10, PlayRejected])
     = [CreateObjectURL, NewAudioContext, CreateMediaStreamDestination, CaptureStream,
        NewMediaRecorder ''video/webm;codecs=h264'', CreateMediaElementSource,
        ConnectSource, AddTrack, SetCurrentTime 10, RecorderStart, VideoPlay, ConsoleError]"
  by (simp add: eval_defs)

text \<open>
  C3, at an input where the code departs from it: the video element reports an error
  while the file loads. The promise is rejected; the object URL, the audio context, the
  captured stream and the recorder have been created and none of them is released
  (\<open>onerror\<close> only rejects). Moreover no run of \<open>renderClip\<close>, successful or not,
  ever revokes the object URL it created.
\<close>

theorem failed_render_releases_nothing:
  "promise (renderClip c r sample_env [VideoError]) = Rejected VideoLoadError
   \<and> trace (renderClip c r sample_env [VideoError])
     = [CreateObjectURL, NewAudioContext, CreateMediaStreamDestination, CaptureStream,
        NewMediaRecorder ''video/webm;codecs=h264'']
   \<and> RevokeObjectURL \<notin> set (trace (renderClip c r env evs))"
proof -
  have "promise (renderClip c r sample_env [VideoError]) = Rejected VideoLoadError"
    by (simp add: renderClip_def renderClip_setup_def sample_env_def Let_def
        onerror_def emit_def settle_def)
  moreover have "trace (renderClip c r sample_env [VideoError])
     = [CreateObjectURL, NewAudioContext, CreateMediaStreamDestination, CaptureStream,
        NewMediaRecorder ''video/webm;codecs=h264'']"
    by (simp add: renderClip_def renderClip_setup_def sample_env_def Let_def
        chooseMimeType_def onerror_def emit_def settle_def)
  ultimately show ?thesis using object_url_never_revoked by simp
qed

end
